theory Spec2Isabelle
  imports Main "HOL-Library.Sublist"
begin

section \<open>Browser process cleanup: a model of \<open>browser_cleanup.py\<close>\<close>

text \<open>
  The script walks over the processes that \<open>psutil.process_iter(['pid', 'name', 'cmdline'])\<close>
  yields, decides from the name and the command line of each whether it is a Chrome
  process started with the Playwright profile, kills those (unless it runs dry) and
  returns how many it counted. The model follows
  \<open>BrowserProcessKiller.kill_browser_processes_only\<close> and \<open>main\<close> line by line.
\<close>

subsection \<open>Strings\<close>

text \<open>
  Python strings are modelled as \<open>string\<close>. The tokens the script looks for are ASCII, and
  \<open>str.lower\<close> is modelled on the ASCII letters: no other character is lowered to one of
  the letters of \<open>chrome\<close> or \<open>node\<close>, so that the tests of the script give the same
  answer on the model as on the Python string.
\<close>

definition lower_char :: "char \<Rightarrow> char" where
  "lower_char c =
     (case map_of (zip ''ABCDEFGHIJKLMNOPQRSTUVWXYZ'' ''abcdefghijklmnopqrstuvwxyz'') c of
        None \<Rightarrow> c
      | Some d \<Rightarrow> d)"

definition lower :: "string \<Rightarrow> string" where
  "lower s = map lower_char s"

text \<open>\<open>startswith s t\<close> is Python's \<open>s.startswith(t)\<close>.\<close>

fun startswith :: "string \<Rightarrow> string \<Rightarrow> bool" where
  "startswith s [] = True"
| "startswith [] (y # ys) = False"
| "startswith (x # xs) (y # ys) = (x = y \<and> startswith xs ys)"

text \<open>\<open>contains t s\<close> is Python's \<open>t in s\<close> on strings: \<open>t\<close> occurs in \<open>s\<close> as a
  contiguous run of characters, at some position.\<close>

fun contains :: "string \<Rightarrow> string \<Rightarrow> bool" where
  "contains t [] = (t = [])"
| "contains t (x # xs) = (startswith (x # xs) t \<or> contains t xs)"

text \<open>\<open>join_space ws\<close> is Python's \<open>' '.join(ws)\<close>.\<close>

fun join_space :: "string list \<Rightarrow> string" where
  "join_space [] = []"
| "join_space [w] = w"
| "join_space (w # v # ws) = w @ '' '' @ join_space (v # ws)"

subsection \<open>The two tests of the script and the decision to kill\<close>

text \<open>
  \<^verbatim>\<open>
  is_playwright_chrome = (
      ('chrome' in proc_name.lower() or 'Google Chrome' in proc_name) and
      'mcp-chrome-profile' in cmdline
  )
  is_nodejs_server = (
      'node' in proc_name.lower() and
      ('mcp-server-playwright' in cmdline or 'playwright' in cmdline)
  )
  if is_playwright_chrome and not is_nodejs_server:
  \<close>
\<close>

definition is_playwright_chrome :: "string \<Rightarrow> string \<Rightarrow> bool" where
  "is_playwright_chrome proc_name cmdline =
     ((contains ''chrome'' (lower proc_name) \<or> contains ''Google Chrome'' proc_name) \<and>
      contains ''mcp-chrome-profile'' cmdline)"

definition is_nodejs_server :: "string \<Rightarrow> string \<Rightarrow> bool" where
  "is_nodejs_server proc_name cmdline =
     (contains ''node'' (lower proc_name) \<and>
      (contains ''mcp-server-playwright'' cmdline \<or> contains ''playwright'' cmdline))"

definition should_kill :: "string \<Rightarrow> string \<Rightarrow> bool" where
  "should_kill proc_name cmdline =
     (is_playwright_chrome proc_name cmdline \<and> \<not> is_nodejs_server proc_name cmdline)"

text \<open>
  The three categories of the specification, read off the two tests: a process that
  passes the Chrome test is a target unless the server test vetoes it; a process that
  fails the Chrome test is ignored.
\<close>

datatype category = Target | Protected_vetoed_Ignored | Ignored

definition classification :: "string \<Rightarrow> string \<Rightarrow> category" where
  "classification proc_name cmdline =
     (if is_playwright_chrome proc_name cmdline
      then (if is_nodejs_server proc_name cmdline then Protected_vetoed_Ignored else Target)
      else Ignored)"

subsection \<open>What \<open>psutil\<close> hands to the script\<close>

text \<open>
  \<open>proc.info\<close> is the dictionary that \<open>process_iter\<close> fills with the three attributes
  asked for. \<open>psutil\<close> stores \<open>None\<close> under an attribute that it could not read (access
  denied, or a zombie), so the name and the argument vector are optional; the script
  itself writes \<open>proc.info['cmdline'] or []\<close>.
\<close>

record proc_info =
  pid :: nat
  name :: "string option"
  cmdline :: "string list option"

text \<open>The exceptions that can reach the script while it sweeps.\<close>

datatype exc =
    NoSuchProcess
  | AccessDenied
  | ZombieProcess
  | TimeoutExpired
  | KeyboardInterrupt
  | AttributeError
  | OSError

text \<open>
  A process of the snapshot: its \<open>info\<close>, and what the operating system answers when the
  script calls \<open>proc.kill()\<close> and then \<open>proc.wait(timeout=5)\<close> on it: \<open>None\<close> when the
  call returns, \<open>Some e\<close> when it raises \<open>e\<close>.
\<close>

record process =
  info :: proc_info
  kill_result :: "exc option"
  wait_result :: "exc option"

text \<open>The fields of \<open>BrowserProcessKiller\<close>.\<close>

record killer =
  dry_run :: bool
  verbose :: bool

text \<open>What the script does to the outside world, in order: lines printed and calls made.\<close>

datatype event =
    Print_killing string nat
  | Call_kill nat
  | Call_wait nat
  | Print_timeout nat
  | Print_summary nat
  | Print_success nat
  | Print_preserved
  | Print_none_found
  | Print_interrupted
  | Print_failed exc
  | Print_psutil_missing

subsection \<open>The sweep\<close>

text \<open>\<^verbatim>\<open>cmdline = ' '.join(proc.info['cmdline'] or [])\<close>\<close>

definition cmdline_text :: "proc_info \<Rightarrow> string" where
  "cmdline_text i = join_space (case cmdline i of None \<Rightarrow> [] | Some ws \<Rightarrow> ws)"

text \<open>
  The body of the \<open>try\<close> statement for one process, started with the current
  \<open>killed_count\<close>: the events it causes, and either the exception it raises or the new
  \<open>killed_count\<close>. \<open>proc_name.lower()\<close> raises \<open>AttributeError\<close> when the name is \<open>None\<close>.
  \<^verbatim>\<open>
  if is_playwright_chrome and not is_nodejs_server:
      if self.verbose:
          print(f"Killing Chrome process: {proc_name} (PID: {proc.info['pid']})")
      if not self.dry_run:
          proc.kill()
          proc.wait(timeout=5)
      killed_count += 1
  \<close>
\<close>

definition try_body :: "killer \<Rightarrow> process \<Rightarrow> nat \<Rightarrow> event list \<times> (exc + nat)" where
  "try_body self proc killed_count =
     (case name (info proc) of
        None \<Rightarrow> ([], Inl AttributeError)
      | Some proc_name \<Rightarrow>
          if should_kill proc_name (cmdline_text (info proc)) then
            (let said = (if verbose self
                         then [Print_killing proc_name (pid (info proc))] else [])
             in if \<not> dry_run self then
                  (case kill_result proc of
                     Some e \<Rightarrow> (said @ [Call_kill (pid (info proc))], Inl e)
                   | None \<Rightarrow>
                       (case wait_result proc of
                          Some e \<Rightarrow>
                            (said @ [Call_kill (pid (info proc)),
                                     Call_wait (pid (info proc))], Inl e)
                        | None \<Rightarrow>
                            (said @ [Call_kill (pid (info proc)),
                                     Call_wait (pid (info proc))],
                             Inr (killed_count + 1))))
                else (said, Inr (killed_count + 1)))
          else ([], Inr killed_count))"

text \<open>
  The two \<open>except\<close> clauses: the events of the handler, and \<open>None\<close> when the loop goes on
  (\<open>continue\<close>) or \<open>Some e\<close> when no clause matches and \<open>e\<close> leaves the loop.
  \<^verbatim>\<open>
  except (psutil.NoSuchProcess, psutil.AccessDenied, psutil.ZombieProcess):
      continue
  except psutil.TimeoutExpired:
      if self.verbose:
          print(f"Process {proc.info['pid']} did not terminate within timeout")
      continue
  \<close>
\<close>

definition except_clauses :: "killer \<Rightarrow> process \<Rightarrow> exc \<Rightarrow> event list \<times> exc option" where
  "except_clauses self proc e =
     (case e of
        NoSuchProcess \<Rightarrow> ([], None)
      | AccessDenied \<Rightarrow> ([], None)
      | ZombieProcess \<Rightarrow> ([], None)
      | TimeoutExpired \<Rightarrow>
          ((if verbose self then [Print_timeout (pid (info proc))] else []), None)
      | _ \<Rightarrow> ([], Some e))"

text \<open>The \<open>for\<close> loop over the processes, with \<open>killed_count\<close> as its state.\<close>

fun process_loop :: "killer \<Rightarrow> process list \<Rightarrow> nat \<Rightarrow> event list \<times> (exc + nat)" where
  "process_loop self [] killed_count = ([], Inr killed_count)"
| "process_loop self (proc # procs) killed_count =
     (case try_body self proc killed_count of
        (evs, Inr killed_count') \<Rightarrow>
          (case process_loop self procs killed_count' of
             (evs', r) \<Rightarrow> (evs @ evs', r))
      | (evs, Inl e) \<Rightarrow>
          (case except_clauses self proc e of
             (hevs, None) \<Rightarrow>
               (case process_loop self procs killed_count of
                  (evs', r) \<Rightarrow> (evs @ hevs @ evs', r))
           | (hevs, Some e') \<Rightarrow> (evs @ hevs, Inl e')))"

definition kill_browser_processes_only ::
  "killer \<Rightarrow> process list \<Rightarrow> event list \<times> (exc + nat)" where
  "kill_browser_processes_only self procs =
     (case process_loop self procs 0 of
        (evs, Inl e) \<Rightarrow> (evs, Inl e)
      | (evs, Inr killed_count) \<Rightarrow> (evs @ [Print_summary killed_count], Inr killed_count))"

text \<open>
  \<open>main\<close>, from the parsed arguments on: the events and the value it returns, which
  \<open>sys.exit\<close> makes the exit code. \<open>KeyboardInterrupt\<close> is the only exception of the model
  that is not an \<open>Exception\<close>; its clause comes first.
\<close>

definition main :: "killer \<Rightarrow> process list \<Rightarrow> event list \<times> int" where
  "main args procs =
     (case kill_browser_processes_only args procs of
        (evs, Inr killed_count) \<Rightarrow>
          if killed_count > 0
          then (evs @ [Print_success killed_count, Print_preserved], 0)
          else (evs @ [Print_none_found], 0)
      | (evs, Inl KeyboardInterrupt) \<Rightarrow> (evs @ [Print_interrupted], 1)
      | (evs, Inl e) \<Rightarrow> (evs @ [Print_failed e], 2))"

text \<open>
  The script as a whole, for an invocation whose arguments parse: the import guard at the
  top of the module, then \<open>sys.exit(main())\<close>.
  \<^verbatim>\<open>
  try:
      import psutil
  except ImportError:
      print("ERROR: psutil not installed. Install with: pip install psutil")
      sys.exit(1)
  \<close>
\<close>

definition script :: "bool \<Rightarrow> killer \<Rightarrow> process list \<Rightarrow> event list \<times> int" where
  "script psutil_installed args procs =
     (if psutil_installed then main args procs else ([Print_psutil_missing], 1))"

subsection \<open>Notions used to state the properties\<close>

text \<open>A process of the snapshot is a target when it has a name and the script decides to
  kill it.\<close>

definition is_target :: "process \<Rightarrow> bool" where
  "is_target proc =
     (case name (info proc) of
        None \<Rightarrow> False
      | Some proc_name \<Rightarrow> should_kill proc_name (cmdline_text (info proc)))"

text \<open>The per-process conditions the sweep expects: the four exceptions named in its
  \<open>except\<close> clauses.\<close>

definition expected :: "exc \<Rightarrow> bool" where
  "expected e = (e = NoSuchProcess \<or> e = AccessDenied \<or> e = ZombieProcess \<or> e = TimeoutExpired)"

text \<open>A process is well behaved when its name could be read and its \<open>kill\<close> and \<open>wait\<close>
  either return or raise an expected condition.\<close>

definition well_behaved :: "process \<Rightarrow> bool" where
  "well_behaved proc =
     (name (info proc) \<noteq> None \<and>
      (case kill_result proc of None \<Rightarrow> True | Some e \<Rightarrow> expected e) \<and>
      (case wait_result proc of None \<Rightarrow> True | Some e \<Rightarrow> expected e))"

text \<open>The signal reached the process: \<open>kill\<close> returned.\<close>

definition signalled :: "process \<Rightarrow> bool" where
  "signalled proc = (kill_result proc = None)"

text \<open>The process was seen to exit: \<open>kill\<close> and \<open>wait\<close> both returned.\<close>

definition exit_confirmed :: "process \<Rightarrow> bool" where
  "exit_confirmed proc = (kill_result proc = None \<and> wait_result proc = None)"

text \<open>A process is counted by the sweep when it is a target and, unless the sweep runs dry,
  its \<open>kill\<close> and \<open>wait\<close> both returned.\<close>

definition counted :: "killer \<Rightarrow> process \<Rightarrow> bool" where
  "counted self proc = (is_target proc \<and> (dry_run self \<or> exit_confirmed proc))"

text \<open>The targets to which the signal was sent, whether or not they were seen to exit.\<close>

definition signalled_targets :: "process list \<Rightarrow> process list" where
  "signalled_targets procs = filter (\<lambda>proc. is_target proc \<and> signalled proc) procs"

definition confirmed_targets :: "process list \<Rightarrow> process list" where
  "confirmed_targets procs = filter (\<lambda>proc. is_target proc \<and> exit_confirmed proc) procs"

definition targets :: "process list \<Rightarrow> process list" where
  "targets procs = filter is_target procs"

text \<open>
  The classification rule as the specification words it, with every test a
  case-insensitive substring test; it is compared with the tests of the script.
\<close>

definition contains_ci :: "string \<Rightarrow> string \<Rightarrow> bool" where
  "contains_ci t s = contains (lower t) (lower s)"

definition spec_browser_target :: "string \<Rightarrow> string \<Rightarrow> bool" where
  "spec_browser_target n c =
     ((contains_ci ''chrome'' n \<or> contains_ci ''Google Chrome'' n) \<and>
      contains_ci ''mcp-chrome-profile'' c)"

definition spec_protected_server :: "string \<Rightarrow> string \<Rightarrow> bool" where
  "spec_protected_server n c =
     (contains_ci ''node'' n \<and>
      (contains_ci ''mcp-server-playwright'' c \<or> contains_ci ''playwright'' c))"

subsection \<open>Example processes and configurations\<close>

text \<open>A Chrome process started with the Playwright profile (scenario 1 of the
  specification), with the answers of its \<open>kill\<close> and \<open>wait\<close> left open.\<close>

abbreviation chrome_proc :: "nat \<Rightarrow> exc option \<Rightarrow> exc option \<Rightarrow> process" where
  "chrome_proc i k w \<equiv>
     \<lparr>info = \<lparr>pid = i, name = Some ''Google Chrome'',
              cmdline = Some [''chrome'', ''--user-data-dir=/tmp/mcp-chrome-profile-123'']\<rparr>,
      kill_result = k, wait_result = w\<rparr>"

text \<open>The Playwright server (scenario 2).\<close>

abbreviation node_server :: "nat \<Rightarrow> process" where
  "node_server i \<equiv>
     \<lparr>info = \<lparr>pid = i, name = Some ''node'',
              cmdline = Some [''node'', ''mcp-server-playwright'', ''--browser=chrome'']\<rparr>,
      kill_result = None, wait_result = None\<rparr>"

text \<open>A process that passes both tests of the script.\<close>

abbreviation chrome_node_proc :: "nat \<Rightarrow> process" where
  "chrome_node_proc i \<equiv>
     \<lparr>info = \<lparr>pid = i, name = Some ''chrome-node-helper'',
              cmdline = Some [''--user-data-dir=/tmp/mcp-chrome-profile'', ''playwright'']\<rparr>,
      kill_result = None, wait_result = None\<rparr>"

text \<open>A Chrome process of which \<open>psutil\<close> could not read the argument vector.\<close>

abbreviation no_cmdline_proc :: "nat \<Rightarrow> process" where
  "no_cmdline_proc i \<equiv>
     \<lparr>info = \<lparr>pid = i, name = Some ''chrome'', cmdline = None\<rparr>,
      kill_result = None, wait_result = None\<rparr>"

text \<open>A process of which \<open>psutil\<close> could read neither the name nor the argument vector.\<close>

abbreviation unreadable_proc :: "nat \<Rightarrow> process" where
  "unreadable_proc i \<equiv>
     \<lparr>info = \<lparr>pid = i, name = None, cmdline = None\<rparr>,
      kill_result = None, wait_result = None\<rparr>"

text \<open>A process whose name holds both tokens and whose command line holds the profile
  marker and, in upper case, a server marker.\<close>

abbreviation upper_case_marker_proc :: "nat \<Rightarrow> process" where
  "upper_case_marker_proc i \<equiv>
     \<lparr>info = \<lparr>pid = i, name = Some ''Chrome NODE'',
              cmdline = Some [''x'', ''--user-data-dir=/tmp/mcp-chrome-profile'', ''PLAYWRIGHT'']\<rparr>,
      kill_result = None, wait_result = None\<rparr>"

abbreviation real_run :: killer where
  "real_run \<equiv> \<lparr>dry_run = False, verbose = False\<rparr>"

abbreviation dry :: killer where
  "dry \<equiv> \<lparr>dry_run = True, verbose = False\<rparr>"

section \<open>Facts about strings\<close>

lemma startswith_prefix: "startswith s t = prefix t s"
  by (induction s t rule: startswith.induct) auto

lemma contains_sublist: "contains t s = sublist t s"
  by (induction s) (simp_all add: startswith_prefix sublist_Cons_right)

lemma contains_trans: "contains a b \<Longrightarrow> contains b c \<Longrightarrow> contains a c"
  unfolding contains_sublist by (rule sublist_order.order_trans)

lemma contains_lower_mono: "contains t s \<Longrightarrow> contains (lower t) (lower s)"
  unfolding contains_sublist lower_def by (rule map_mono_sublist)

lemma playwright_in_marker: "contains ''playwright'' ''mcp-server-playwright''"
  by simp

lemma chrome_in_lowered_google_chrome: "contains ''chrome'' (lower ''Google Chrome'')"
  by (simp add: lower_def lower_char_def)

lemma google_chrome_lower:
  "contains ''Google Chrome'' n \<Longrightarrow> contains ''chrome'' (lower n)"
  using contains_trans [OF chrome_in_lowered_google_chrome contains_lower_mono] .

lemma should_kill_classification:
  "should_kill n c = (classification n c = Target)"
  by (simp add: should_kill_def classification_def)

section \<open>Facts about the loop\<close>

lemma snd_loop_Nil: "snd (process_loop self [] k) = Inr k" by simp

lemma snd_loop_Cons:
  "snd (process_loop self (p # ps) k) =
     (case name (info p) of
        None \<Rightarrow> Inl AttributeError
      | Some n \<Rightarrow>
          if \<not> is_target p then snd (process_loop self ps k)
          else if dry_run self then snd (process_loop self ps (k + 1))
          else (case kill_result p of
                  Some e \<Rightarrow> if expected e then snd (process_loop self ps k) else Inl e
                | None \<Rightarrow>
                    (case wait_result p of
                       Some e \<Rightarrow> if expected e then snd (process_loop self ps k) else Inl e
                     | None \<Rightarrow> snd (process_loop self ps (k + 1)))))"
  by (simp add: try_body_def except_clauses_def expected_def is_target_def Let_def
      split: option.split exc.split prod.split sum.split)

lemma fst_loop_Cons_not_target:
  "name (info p) = Some n \<Longrightarrow> \<not> should_kill n (cmdline_text (info p)) \<Longrightarrow>
   process_loop self (p # ps) k = process_loop self ps k"
  by (simp add: try_body_def split: prod.split)

lemma loop_skip:
  "name (info p) = Some n \<Longrightarrow> \<not> should_kill n (cmdline_text (info p)) \<Longrightarrow>
   process_loop self (xs @ p # ys) k = process_loop self (xs @ ys) k"
proof (induction xs arbitrary: k)
  case Nil
  then show ?case using fst_loop_Cons_not_target [of p n self ys k] by simp
next
  case (Cons x xs)
  then show ?case by (simp split: prod.split sum.split option.split)
qed

lemma loop_well_behaved:
  "\<forall>p\<in>set ps. well_behaved p \<Longrightarrow>
   snd (process_loop self ps k) = Inr (k + length (filter (counted self) ps))"
proof (induction ps arbitrary: k)
  case Nil
  then show ?case by simp
next
  case (Cons p ps)
  then have ih: "\<And>j. snd (process_loop self ps j) = Inr (j + length (filter (counted self) ps))"
    by simp
  from Cons.prems have wb: "well_behaved p" by simp
  show ?case
    using wb unfolding snd_loop_Cons ih
    by (auto simp: well_behaved_def counted_def [of self p] exit_confirmed_def
        split: option.split)
qed

lemma loop_bound:
  "snd (process_loop self ps k) = Inr n \<Longrightarrow> n \<le> k + length (filter is_target ps)"
proof (induction ps arbitrary: k)
  case Nil
  then show ?case by simp
next
  case (Cons p ps)
  show ?case
    using Cons.prems Cons.IH [of k] Cons.IH [of "k + 1"] unfolding snd_loop_Cons
    by (auto split: option.splits if_splits)
qed

lemma body_call_event:
  "ev \<in> set (fst (try_body self p k)) \<Longrightarrow> ev = Call_kill i \<or> ev = Call_wait i \<Longrightarrow>
   \<not> dry_run self \<and> pid (info p) = i \<and> is_target p"
  by (auto simp: try_body_def is_target_def Let_def split: option.splits if_splits)

lemma handler_no_call:
  "ev \<in> set (fst (except_clauses self p e)) \<Longrightarrow> ev = Print_timeout (pid (info p))"
  by (auto simp: except_clauses_def split: exc.splits if_splits)

lemma loop_Cons_events:
  assumes "ev \<in> set (fst (process_loop self (p # ps) k))"
  shows "ev \<in> set (fst (try_body self p k)) \<or>
         (\<exists>e. ev \<in> set (fst (except_clauses self p e))) \<or>
         (\<exists>j. ev \<in> set (fst (process_loop self ps j)))"
proof -
  obtain evs r where b: "try_body self p k = (evs, r)" by (cases "try_body self p k")
  show ?thesis
  proof (cases r)
    case (Inr k')
    obtain evs' r' where l: "process_loop self ps k' = (evs', r')"
      by (cases "process_loop self ps k'")
    have "ev \<in> set evs \<or> ev \<in> set evs'" using assms b Inr l by simp
    then show ?thesis using b l by (metis fst_conv)
  next
    case (Inl e)
    obtain hevs c where h: "except_clauses self p e = (hevs, c)"
      by (cases "except_clauses self p e")
    obtain evs' r' where l: "process_loop self ps k = (evs', r')"
      by (cases "process_loop self ps k")
    have "ev \<in> set evs \<or> ev \<in> set hevs \<or> ev \<in> set evs'"
      using assms b Inl h l by (cases c) auto
    then show ?thesis using b h l by (metis fst_conv)
  qed
qed

lemma loop_call_event:
  "ev \<in> set (fst (process_loop self ps k)) \<Longrightarrow> ev = Call_kill i \<or> ev = Call_wait i \<Longrightarrow>
   \<not> dry_run self \<and> (\<exists>p\<in>set ps. pid (info p) = i \<and> is_target p)"
proof (induction ps arbitrary: k)
  case Nil
  then show ?case by simp
next
  case (Cons p ps)
  from loop_Cons_events [OF Cons.prems(1)] consider
      (body) "ev \<in> set (fst (try_body self p k))"
    | (handler) e where "ev \<in> set (fst (except_clauses self p e))"
    | (rest) j where "ev \<in> set (fst (process_loop self ps j))"
    by blast
  then show ?case
  proof cases
    case body
    then show ?thesis using body_call_event [OF body Cons.prems(2)] by simp
  next
    case handler
    then show ?thesis using handler_no_call [OF handler] Cons.prems(2) by auto
  next
    case rest
    then show ?thesis using Cons.IH [OF rest Cons.prems(2)] by auto
  qed
qed

lemmas eval_defs = kill_browser_processes_only_def main_def try_body_def except_clauses_def
  should_kill_def is_playwright_chrome_def is_nodejs_server_def cmdline_text_def
  lower_def lower_char_def classification_def is_target_def

lemma snd_sweep: "snd (kill_browser_processes_only self procs) = snd (process_loop self procs 0)"
  by (simp add: kill_browser_processes_only_def split: prod.split sum.split)

lemma sweep_call_event:
  assumes "ev \<in> set (fst (kill_browser_processes_only self procs))"
    and "ev = Call_kill i \<or> ev = Call_wait i"
  shows "\<not> dry_run self \<and> (\<exists>p\<in>set procs. pid (info p) = i \<and> is_target p)"
proof -
  have "ev \<in> set (fst (process_loop self procs 0))"
    using assms by (auto simp: kill_browser_processes_only_def split: prod.splits sum.splits)
  then show ?thesis using assms(2) by (rule loop_call_event)
qed

lemma sweep_skip:
  "name (info p) = Some n \<Longrightarrow> \<not> should_kill n (cmdline_text (info p)) \<Longrightarrow>
   kill_browser_processes_only self (xs @ p # ys) = kill_browser_processes_only self (xs @ ys)"
  by (simp add: kill_browser_processes_only_def loop_skip)

lemma body_not_target:
  "name (info p) = Some n \<Longrightarrow> \<not> should_kill n (cmdline_text (info p)) \<Longrightarrow>
   try_body self p k = ([], Inr k)"
  by (simp add: try_body_def)

lemma loop_escape_unexpected:
  "snd (process_loop self ps k) = Inl e \<Longrightarrow> \<not> expected e"
proof (induction ps arbitrary: k)
  case Nil
  then show ?case by simp
next
  case (Cons p ps)
  show ?case
    using Cons.prems Cons.IH [of k] Cons.IH [of "k + 1"] unfolding snd_loop_Cons
    by (auto simp: expected_def split: option.splits if_splits)
qed

lemma sweep_well_behaved:
  "\<forall>p\<in>set procs. well_behaved p \<Longrightarrow>
   snd (kill_browser_processes_only self procs) = Inr (length (filter (counted self) procs))"
  using loop_well_behaved [of procs self 0] by (simp add: snd_sweep)

lemma snd_main:
  "snd (main args procs) =
     (case snd (kill_browser_processes_only args procs) of
        Inr n \<Rightarrow> 0
      | Inl e \<Rightarrow> if e = KeyboardInterrupt then 1 else 2)"
  by (simp add: main_def split: prod.split sum.split exc.split)

lemma counted_dry: "dry_run self \<Longrightarrow> filter (counted self) procs = targets procs"
  unfolding targets_def by (rule filter_cong) (simp_all add: counted_def)

lemma counted_real: "\<not> dry_run self \<Longrightarrow> filter (counted self) procs = confirmed_targets procs"
  unfolding confirmed_targets_def by (rule filter_cong) (simp_all add: counted_def)

lemma confirmed_le_signalled: "length (confirmed_targets procs) \<le> length (signalled_targets procs)"
  by (induction procs) (auto simp: confirmed_targets_def signalled_targets_def
      exit_confirmed_def signalled_def)

lemma confirmed_le_targets: "length (confirmed_targets procs) \<le> length (targets procs)"
  by (induction procs) (auto simp: confirmed_targets_def targets_def)

lemma confirmed_eq_targets:
  "\<forall>p\<in>set procs. is_target p \<longrightarrow> exit_confirmed p \<Longrightarrow> confirmed_targets procs = targets procs"
  by (induction procs) (auto simp: confirmed_targets_def targets_def)

lemma sweep_dry_no_call:
  "dry_run self \<Longrightarrow> ev \<in> set (fst (kill_browser_processes_only self procs)) \<Longrightarrow>
   ev \<noteq> Call_kill i \<and> ev \<noteq> Call_wait i"
  using sweep_call_event [of ev self procs i] by blast

text \<open>
  The tokens looked for in the name are already in lower case.
\<close>

lemma lower_idem_chrome: "lower ''chrome'' = ''chrome''" "lower ''node'' = ''node''"
  by (simp_all add: lower_def lower_char_def)

lemma main_exit_code:
  "(snd (kill_browser_processes_only args procs) = Inr n \<longrightarrow> snd (main args procs) = 0) \<and>
   (snd (kill_browser_processes_only args procs) = Inl KeyboardInterrupt \<longrightarrow>
      snd (main args procs) = 1) \<and>
   (snd (kill_browser_processes_only args procs) = Inl e \<and> e \<noteq> KeyboardInterrupt \<longrightarrow>
      snd (main args procs) = 2 \<and> \<not> expected e) \<and>
   ((\<forall>p\<in>set procs. well_behaved p) \<longrightarrow> snd (main args procs) = 0)"
proof -
  have "\<not> expected e" if "snd (kill_browser_processes_only args procs) = Inl e"
    using that loop_escape_unexpected [of args procs 0 e] by (simp add: snd_sweep)
  moreover have "snd (main args procs) = 0" if "\<forall>p\<in>set procs. well_behaved p"
    using sweep_well_behaved [OF that, of args] by (simp add: snd_main)
  ultimately show ?thesis by (auto simp: snd_main)
qed

lemma cmdline_unavailable_name_readable:
  assumes "cmdline (info p) = None \<or> cmdline (info p) = Some []"
    and "name (info p) = Some n"
  shows "cmdline_text (info p) = [] \<and>
         classification n (cmdline_text (info p)) = Ignored \<and>
         \<not> is_target p \<and>
         try_body self p k = ([], Inr k) \<and>
         kill_browser_processes_only self (xs @ p # ys) =
           kill_browser_processes_only self (xs @ ys)"
proof -
  have e: "cmdline_text (info p) = []"
    using assms(1) by (auto simp: cmdline_text_def)
  have c: "\<not> is_playwright_chrome n (cmdline_text (info p))"
    by (simp add: e is_playwright_chrome_def)
  then have nk: "\<not> should_kill n (cmdline_text (info p))"
    by (simp add: should_kill_def)
  have t: "\<not> is_target p" using assms(2) nk by (simp add: is_target_def)
  show ?thesis
    using e c t body_not_target [OF assms(2) nk] sweep_skip [OF assms(2) nk]
    by (simp add: classification_def)
qed

section \<open>Properties of the classification and of the sweep\<close>

text \<open>
  C1, as the code has it. A process that passes both tests of the script (the Chrome test
  and the server test, whose command-line markers are matched exactly, with their case) is
  classified as ignored by the veto of the server test, never as a target. The sweep does
  nothing for it: the body of the loop causes no event and leaves the count as it is, the
  sweep over a snapshot that holds the process is the sweep over the snapshot without it,
  and no \<open>kill\<close> is called on its pid (when no other process of the snapshot has that pid).
  With the patterns read case-insensitively, as the specification words them, the law
  fails: the counterexample is a process that matches both patterns, with the server
  marker in upper case, which the script classifies as a target and kills.
\<close>

theorem protected_precedence:
  assumes "name (info p) = Some n"
    and "is_playwright_chrome n (cmdline_text (info p))"
    and "is_nodejs_server n (cmdline_text (info p))"
  shows "classification n (cmdline_text (info p)) = Protected_vetoed_Ignored \<and>
         classification n (cmdline_text (info p)) \<noteq> Target \<and>
         \<not> is_target p \<and>
         try_body self p k = ([], Inr k) \<and>
         kill_browser_processes_only self (xs @ p # ys) =
           kill_browser_processes_only self (xs @ ys) \<and>
         (pid (info p) \<notin> (\<lambda>q. pid (info q)) ` set (xs @ ys) \<longrightarrow>
            Call_kill (pid (info p)) \<notin> set (fst (kill_browser_processes_only self (xs @ p # ys))))"
proof -
  have nk: "\<not> should_kill n (cmdline_text (info p))"
    using assms(3) by (simp add: should_kill_def)
  have c: "classification n (cmdline_text (info p)) = Protected_vetoed_Ignored"
    using assms(2,3) by (simp add: classification_def)
  have t: "\<not> is_target p" using assms(1) nk by (simp add: is_target_def)
  have s: "kill_browser_processes_only self (xs @ p # ys) =
           kill_browser_processes_only self (xs @ ys)"
    using assms(1) nk by (rule sweep_skip)
  have k: "Call_kill (pid (info p)) \<notin> set (fst (kill_browser_processes_only self (xs @ p # ys)))"
    if "pid (info p) \<notin> (\<lambda>q. pid (info q)) ` set (xs @ ys)"
  proof
    assume "Call_kill (pid (info p)) \<in> set (fst (kill_browser_processes_only self (xs @ p # ys)))"
    then have "Call_kill (pid (info p)) \<in> set (fst (kill_browser_processes_only self (xs @ ys)))"
      by (simp only: s)
    from sweep_call_event [OF this] obtain q where "q \<in> set (xs @ ys)" "pid (info q) = pid (info p)"
      by blast
    with that show False by (metis imageI)
  qed
  show ?thesis using c t s k body_not_target [OF assms(1) nk] by simp
qed

theorem protected_precedence_witness:
  "is_playwright_chrome ''chrome-node-helper''
     (cmdline_text (info (chrome_node_proc 12))) \<and>
   is_nodejs_server ''chrome-node-helper'' (cmdline_text (info (chrome_node_proc 12))) \<and>
   classification ''chrome-node-helper'' (cmdline_text (info (chrome_node_proc 12))) =
     Protected_vetoed_Ignored \<and>
   kill_browser_processes_only real_run [chrome_proc 10 None None, chrome_node_proc 12] =
     kill_browser_processes_only real_run [chrome_proc 10 None None] \<and>
   Call_kill 12 \<notin> set (fst (kill_browser_processes_only real_run
     [chrome_proc 10 None None, chrome_node_proc 12]))"
proof -
  have h1: "name (info (chrome_node_proc 12)) = Some ''chrome-node-helper''" by simp
  have h2: "is_playwright_chrome ''chrome-node-helper''
     (cmdline_text (info (chrome_node_proc 12)))"
    by (simp add: is_playwright_chrome_def cmdline_text_def lower_def lower_char_def)
  have h3: "is_nodejs_server ''chrome-node-helper'' (cmdline_text (info (chrome_node_proc 12)))"
    by (simp add: is_nodejs_server_def cmdline_text_def lower_def lower_char_def)
  note w = protected_precedence [OF h1 h2 h3, of real_run 0 "[chrome_proc 10 None None]" "[]"]
  have c: "classification ''chrome-node-helper'' (cmdline_text (info (chrome_node_proc 12))) =
     Protected_vetoed_Ignored"
    using w by blast
  have "kill_browser_processes_only real_run
          ([chrome_proc 10 None None] @ chrome_node_proc 12 # []) =
        kill_browser_processes_only real_run ([chrome_proc 10 None None] @ [])"
    using w by blast
  then have s: "kill_browser_processes_only real_run
          [chrome_proc 10 None None, chrome_node_proc 12] =
        kill_browser_processes_only real_run [chrome_proc 10 None None]"
    by simp
  have d: "pid (info (chrome_node_proc 12)) \<notin>
           (\<lambda>q. pid (info q)) ` set ([chrome_proc 10 None None] @ [])"
    by simp
  have "Call_kill (pid (info (chrome_node_proc 12))) \<notin>
        set (fst (kill_browser_processes_only real_run
          ([chrome_proc 10 None None] @ chrome_node_proc 12 # [])))"
    using w d by blast
  then have k: "Call_kill 12 \<notin> set (fst (kill_browser_processes_only real_run
     [chrome_proc 10 None None, chrome_node_proc 12]))"
    by simp
  show ?thesis using h2 h3 c s k by blast
qed

theorem spec_patterns_precedence_counterexample:
  "spec_browser_target ''Chrome NODE'' (cmdline_text (info (upper_case_marker_proc 7))) \<and>
   spec_protected_server ''Chrome NODE'' (cmdline_text (info (upper_case_marker_proc 7))) \<and>
   classification ''Chrome NODE'' (cmdline_text (info (upper_case_marker_proc 7))) = Target \<and>
   kill_browser_processes_only real_run [upper_case_marker_proc 7] =
     ([Call_kill 7, Call_wait 7, Print_summary 1], Inr 1)"
  by (simp add: spec_browser_target_def spec_protected_server_def contains_ci_def eval_defs)

text \<open>
  C2, as the code has it. \<open>killed_count\<close> is incremented after \<open>proc.wait(timeout=5)\<close> has
  returned, so a target that was signalled and then ran into the timeout is not counted.
  For a sweep that does not run dry over well-behaved processes, the count returned is
  the number of targets whose \<open>kill\<close> and \<open>wait\<close> both returned; it is at most the number
  of targets that were signalled. The counterexample is a snapshot of one target whose
  \<open>kill\<close> returns and whose \<open>wait\<close> times out: one target was signalled, the count is 0.
\<close>

theorem count_is_confirmed_exits:
  assumes "\<not> dry_run self" and "\<forall>p\<in>set procs. well_behaved p"
  shows "snd (kill_browser_processes_only self procs) = Inr (length (confirmed_targets procs)) \<and>
         length (confirmed_targets procs) \<le> length (signalled_targets procs)"
  using sweep_well_behaved [OF assms(2), of self] counted_real [OF assms(1), of procs]
    confirmed_le_signalled [of procs]
  by simp

theorem count_is_confirmed_exits_witness:
  "snd (kill_browser_processes_only real_run
      [chrome_proc 10 None None, chrome_proc 13 None (Some TimeoutExpired), node_server 11]) =
     Inr (length (confirmed_targets
      [chrome_proc 10 None None, chrome_proc 13 None (Some TimeoutExpired), node_server 11])) \<and>
   length (confirmed_targets
      [chrome_proc 10 None None, chrome_proc 13 None (Some TimeoutExpired), node_server 11]) = 1 \<and>
   length (signalled_targets
      [chrome_proc 10 None None, chrome_proc 13 None (Some TimeoutExpired), node_server 11]) = 2"
proof -
  have h1: "\<not> dry_run real_run" by simp
  have h2: "\<forall>p\<in>set [chrome_proc 10 None None, chrome_proc 13 None (Some TimeoutExpired),
      node_server 11]. well_behaved p"
    by (simp add: well_behaved_def expected_def)
  have c: "length (confirmed_targets
      [chrome_proc 10 None None, chrome_proc 13 None (Some TimeoutExpired), node_server 11]) = 1"
    by (simp add: confirmed_targets_def exit_confirmed_def eval_defs)
  have s: "length (signalled_targets
      [chrome_proc 10 None None, chrome_proc 13 None (Some TimeoutExpired), node_server 11]) = 2"
    by (simp add: signalled_targets_def signalled_def eval_defs)
  show ?thesis using count_is_confirmed_exits [OF h1 h2] c s by blast
qed

theorem count_at_signal_time_counterexample:
  "snd (kill_browser_processes_only real_run [chrome_proc 10 None (Some TimeoutExpired)]) = Inr 0 \<and>
   length (signalled_targets [chrome_proc 10 None (Some TimeoutExpired)]) = 1"
  by (simp add: signalled_targets_def signalled_def eval_defs)

text \<open>
  C3, as the code has it. A dry run calls neither \<open>kill\<close> nor \<open>wait\<close>. Over well-behaved
  processes it returns the number of targets of the snapshot, while the real run returns
  the number of targets whose \<open>kill\<close> and \<open>wait\<close> both returned: at most the count of the
  dry run, and equal to it when \<open>kill\<close> and \<open>wait\<close> return for every target. The
  counterexample is a snapshot of one target that has vanished when \<open>kill\<close> is called: the
  dry run returns 1, the real run returns 0.
\<close>

theorem dry_run_law:
  "(\<forall>ev\<in>set (fst (kill_browser_processes_only (self\<lparr>dry_run := True\<rparr>) procs)).
      \<forall>i. ev \<noteq> Call_kill i \<and> ev \<noteq> Call_wait i) \<and>
   ((\<forall>p\<in>set procs. well_behaved p) \<longrightarrow>
      snd (kill_browser_processes_only (self\<lparr>dry_run := True\<rparr>) procs) =
        Inr (length (targets procs)) \<and>
      snd (kill_browser_processes_only (self\<lparr>dry_run := False\<rparr>) procs) =
        Inr (length (confirmed_targets procs)) \<and>
      length (confirmed_targets procs) \<le> length (targets procs) \<and>
      ((\<forall>p\<in>set procs. is_target p \<longrightarrow> exit_confirmed p) \<longrightarrow>
         snd (kill_browser_processes_only (self\<lparr>dry_run := False\<rparr>) procs) =
         snd (kill_browser_processes_only (self\<lparr>dry_run := True\<rparr>) procs)))"
proof -
  have a: "\<forall>ev\<in>set (fst (kill_browser_processes_only (self\<lparr>dry_run := True\<rparr>) procs)).
      \<forall>i. ev \<noteq> Call_kill i \<and> ev \<noteq> Call_wait i"
    using sweep_dry_no_call [of "self\<lparr>dry_run := True\<rparr>" _ procs] by simp
  have b: "snd (kill_browser_processes_only (self\<lparr>dry_run := True\<rparr>) procs) =
        Inr (length (targets procs))" if "\<forall>p\<in>set procs. well_behaved p"
    using sweep_well_behaved [OF that, of "self\<lparr>dry_run := True\<rparr>"]
      counted_dry [of "self\<lparr>dry_run := True\<rparr>" procs] by simp
  have c: "snd (kill_browser_processes_only (self\<lparr>dry_run := False\<rparr>) procs) =
        Inr (length (confirmed_targets procs))" if "\<forall>p\<in>set procs. well_behaved p"
    using sweep_well_behaved [OF that, of "self\<lparr>dry_run := False\<rparr>"]
      counted_real [of "self\<lparr>dry_run := False\<rparr>" procs] by simp
  show ?thesis
    using a b c confirmed_le_targets [of procs] confirmed_eq_targets [of procs]
    by (simp del: select_convs)
qed

theorem dry_run_law_witness:
  "snd (kill_browser_processes_only dry [chrome_proc 10 None None, node_server 11]) = Inr 1 \<and>
   snd (kill_browser_processes_only real_run [chrome_proc 10 None None, node_server 11]) = Inr 1 \<and>
   Call_kill 10 \<notin> set (fst (kill_browser_processes_only dry
      [chrome_proc 10 None None, node_server 11])) \<and>
   Call_kill 10 \<in> set (fst (kill_browser_processes_only real_run
      [chrome_proc 10 None None, node_server 11]))"
proof -
  note w = dry_run_law [of real_run "[chrome_proc 10 None None, node_server 11]"]
  have h1: "\<forall>p\<in>set [chrome_proc 10 None None, node_server 11]. well_behaved p"
    by (simp add: well_behaved_def)
  have t: "length (targets [chrome_proc 10 None None, node_server 11]) = 1"
    by (simp add: targets_def eval_defs)
  have c: "length (confirmed_targets [chrome_proc 10 None None, node_server 11]) = 1"
    by (simp add: confirmed_targets_def exit_confirmed_def eval_defs)
  have d: "real_run\<lparr>dry_run := True\<rparr> = dry" and r: "real_run\<lparr>dry_run := False\<rparr> = real_run"
    by simp_all
  have k: "Call_kill 10 \<in> set (fst (kill_browser_processes_only real_run
      [chrome_proc 10 None None, node_server 11]))"
    by (simp add: eval_defs)
  from w h1 have "snd (kill_browser_processes_only (real_run\<lparr>dry_run := True\<rparr>)
      [chrome_proc 10 None None, node_server 11]) =
        Inr (length (targets [chrome_proc 10 None None, node_server 11]))"
    by blast
  then have a1: "snd (kill_browser_processes_only dry
      [chrome_proc 10 None None, node_server 11]) = Inr 1"
    by (simp only: d t)
  from w h1 have "snd (kill_browser_processes_only (real_run\<lparr>dry_run := False\<rparr>)
      [chrome_proc 10 None None, node_server 11]) =
        Inr (length (confirmed_targets [chrome_proc 10 None None, node_server 11]))"
    by blast
  then have a2: "snd (kill_browser_processes_only real_run
      [chrome_proc 10 None None, node_server 11]) = Inr 1"
    by (simp only: r c)
  from w have "\<forall>ev\<in>set (fst (kill_browser_processes_only (real_run\<lparr>dry_run := True\<rparr>)
      [chrome_proc 10 None None, node_server 11])). \<forall>i. ev \<noteq> Call_kill i \<and> ev \<noteq> Call_wait i"
    by blast
  then have a3: "Call_kill 10 \<notin> set (fst (kill_browser_processes_only dry
      [chrome_proc 10 None None, node_server 11]))"
    unfolding d by blast
  show ?thesis using a1 a2 a3 k by blast
qed

theorem dry_run_law_counterexample:
  "snd (kill_browser_processes_only dry [chrome_proc 10 (Some NoSuchProcess) None]) = Inr 1 \<and>
   snd (kill_browser_processes_only real_run [chrome_proc 10 (Some NoSuchProcess) None]) = Inr 0"
  by (simp add: eval_defs)

text \<open>
  C4, as the code has it. The two tests on the name ignore case: they depend on the name
  through its lowered form only (the test for \<open>Google Chrome\<close>, which is written without
  lowering, is covered by the test for \<open>chrome\<close> in the lowered name), so two names that
  differ in case only get the same classification. The tests on the command line are
  exact substring tests, which respect case. The counterexample is a command line that
  holds the markers in upper case: the rule with every test case-insensitive accepts it,
  the tests of the script do not.
\<close>

theorem name_tests_ignore_case:
  "is_playwright_chrome n c =
     (contains_ci ''chrome'' n \<and> contains ''mcp-chrome-profile'' c) \<and>
   is_nodejs_server n c =
     (contains_ci ''node'' n \<and>
      (contains ''mcp-server-playwright'' c \<or> contains ''playwright'' c)) \<and>
   (lower n = lower n' \<longrightarrow> classification n c = classification n' c)"
proof -
  have a: "is_playwright_chrome m c =
     (contains ''chrome'' (lower m) \<and> contains ''mcp-chrome-profile'' c)" for m
    using google_chrome_lower [of m] by (auto simp: is_playwright_chrome_def)
  have b: "is_nodejs_server m c =
     (contains ''node'' (lower m) \<and>
      (contains ''mcp-server-playwright'' c \<or> contains ''playwright'' c))" for m
    by (simp add: is_nodejs_server_def)
  have "classification n c = classification n' c" if "lower n = lower n'"
    using that by (simp add: classification_def a b)
  then show ?thesis
    by (simp add: a b contains_ci_def lower_idem_chrome)
qed

theorem name_tests_ignore_case_witness:
  "lower ''CHROME.EXE'' = lower ''chrome.exe'' \<and>
   classification ''CHROME.EXE'' ''--user-data-dir=/tmp/mcp-chrome-profile'' = Target \<and>
   classification ''chrome.exe'' ''--user-data-dir=/tmp/mcp-chrome-profile'' = Target"
proof -
  have h: "lower ''CHROME.EXE'' = lower ''chrome.exe''"
    by (simp add: lower_def lower_char_def)
  have t: "classification ''chrome.exe'' ''--user-data-dir=/tmp/mcp-chrome-profile'' = Target"
    by (simp add: eval_defs)
  show ?thesis
    using h t name_tests_ignore_case [of "''CHROME.EXE''"
        "''--user-data-dir=/tmp/mcp-chrome-profile''" "''chrome.exe''"]
    by simp
qed

theorem case_sensitive_cmdline_counterexample:
  "spec_browser_target ''chrome'' ''--user-data-dir=/tmp/MCP-CHROME-PROFILE'' \<and>
   \<not> is_playwright_chrome ''chrome'' ''--user-data-dir=/tmp/MCP-CHROME-PROFILE'' \<and>
   spec_protected_server ''node'' ''PLAYWRIGHT'' \<and>
   \<not> is_nodejs_server ''node'' ''PLAYWRIGHT''"
  by (simp add: spec_browser_target_def spec_protected_server_def contains_ci_def eval_defs)

text \<open>
  C5, at a record where the code departs from it. For a name and a command line the
  classification is a function into the three categories, but the code does not classify
  every record: for a record whose name could not be read, \<open>proc_name.lower()\<close> raises
  \<open>AttributeError\<close> in the first test, in a dry run as in a real one, so the record gets no
  category at all. The record next to it, whose argument vector could not be read but
  whose name could, is classified (as ignored) and the loop goes on.
\<close>

theorem unreadable_name_has_no_category:
  "try_body self (unreadable_proc 4) k = ([], Inl AttributeError) \<and>
   try_body self (no_cmdline_proc 12) k = ([], Inr k) \<and>
   classification ''chrome'' (cmdline_text (info (no_cmdline_proc 12))) = Ignored"
  by (simp add: eval_defs)

text \<open>
  C6, at a snapshot where the code departs from it. The loop recovers from the four
  exceptions named in its \<open>except\<close> clauses (\<open>loop_well_behaved\<close>,
  \<open>loop_escape_unexpected\<close>), and an argument vector that could not be read is taken as
  empty. A name that could not be read is \<open>None\<close>, though, and \<open>proc_name.lower()\<close> then
  raises \<open>AttributeError\<close>, which no clause of the loop catches: the sweep stops at that
  process without a count, the Chrome target after it is never signalled, and \<open>main\<close>
  returns 2.
\<close>

theorem unreadable_name_aborts_sweep:
  "kill_browser_processes_only real_run [unreadable_proc 4, chrome_proc 10 None None] =
     ([], Inl AttributeError) \<and>
   main real_run [unreadable_proc 4, chrome_proc 10 None None] =
     ([Print_failed AttributeError], 2)"
  by (simp add: eval_defs)

text \<open>
  C7. Whenever the sweep returns a count, the count is at most the number of processes of
  the snapshot that are targets.
\<close>

theorem killed_count_le_targets:
  "snd (kill_browser_processes_only self procs) = Inr n \<Longrightarrow> n \<le> length (targets procs)"
  using loop_bound [of self procs 0 n] by (simp add: snd_sweep targets_def)

theorem killed_count_le_targets_witness:
  "snd (kill_browser_processes_only real_run
      [chrome_proc 10 None None, node_server 11, chrome_proc 13 None (Some TimeoutExpired)]) = Inr 1 \<and>
   (1::nat) \<le> length (targets
      [chrome_proc 10 None None, node_server 11, chrome_proc 13 None (Some TimeoutExpired)])"
proof -
  have h: "snd (kill_browser_processes_only real_run
      [chrome_proc 10 None None, node_server 11, chrome_proc 13 None (Some TimeoutExpired)]) = Inr 1"
    by (simp add: eval_defs)
  show ?thesis using h killed_count_le_targets [OF h] by simp
qed

text \<open>
  C8, as the code has it. When \<open>psutil\<close> cannot be imported the script exits with 1 before
  \<open>main\<close> runs. Otherwise it exits with what \<open>main\<close> returns: 0 when the sweep returns a
  count, whatever the count is, 1 when the sweep is left by \<open>KeyboardInterrupt\<close>, and 2
  when it is left by any other exception, which is then none of the four conditions the
  loop handles; when every process of the snapshot is well behaved, that is 0. The
  counterexample is the start without \<open>psutil\<close>: nothing interrupts the script, it lacks
  what it needs to inspect processes, and it exits with 1, not 2.
\<close>

theorem script_exit_code:
  "(\<not> psutil_installed \<longrightarrow> snd (script psutil_installed args procs) = 1) \<and>
   (psutil_installed \<and> snd (kill_browser_processes_only args procs) = Inr n \<longrightarrow>
      snd (script psutil_installed args procs) = 0) \<and>
   (psutil_installed \<and> snd (kill_browser_processes_only args procs) = Inl KeyboardInterrupt \<longrightarrow>
      snd (script psutil_installed args procs) = 1) \<and>
   (psutil_installed \<and> snd (kill_browser_processes_only args procs) = Inl e \<and>
      e \<noteq> KeyboardInterrupt \<longrightarrow>
      snd (script psutil_installed args procs) = 2 \<and> \<not> expected e) \<and>
   (psutil_installed \<and> (\<forall>p\<in>set procs. well_behaved p) \<longrightarrow>
      snd (script psutil_installed args procs) = 0)"
proof (cases psutil_installed)
  case True
  then have s: "script psutil_installed args procs = main args procs"
    by (simp add: script_def)
  show ?thesis unfolding s using True main_exit_code [of args procs n e] by blast
next
  case False
  then have "snd (script psutil_installed args procs) = 1"
    by (simp add: script_def)
  with False show ?thesis by blast
qed

theorem script_exit_code_witness:
  "snd (script False real_run [chrome_proc 10 None None]) = 1 \<and>
   snd (script True real_run [node_server 11]) = 0 \<and>
   snd (script True real_run [chrome_proc 10 None None]) = 0 \<and>
   snd (script True real_run [chrome_proc 10 None (Some KeyboardInterrupt)]) = 1 \<and>
   snd (script True real_run [chrome_proc 10 (Some OSError) None]) = 2"
proof -
  have h0: "snd (kill_browser_processes_only real_run [node_server 11]) = Inr 0"
    by (simp add: eval_defs)
  have h1: "snd (kill_browser_processes_only real_run [chrome_proc 10 None None]) = Inr 1"
    by (simp add: eval_defs)
  have h2: "snd (kill_browser_processes_only real_run
              [chrome_proc 10 None (Some KeyboardInterrupt)]) = Inl KeyboardInterrupt"
    by (simp add: eval_defs)
  have h3: "snd (kill_browser_processes_only real_run [chrome_proc 10 (Some OSError) None]) =
              Inl OSError"
    by (simp add: eval_defs)
  have n: "OSError \<noteq> KeyboardInterrupt" by simp
  have a: "snd (script False real_run [chrome_proc 10 None None]) = 1"
    using script_exit_code [of False real_run "[chrome_proc 10 None None]"] by blast
  have b: "snd (script True real_run [node_server 11]) = 0"
    using h0 script_exit_code [of True real_run "[node_server 11]" 0] by blast
  have c: "snd (script True real_run [chrome_proc 10 None None]) = 0"
    using h1 script_exit_code [of True real_run "[chrome_proc 10 None None]" 1] by blast
  have d: "snd (script True real_run [chrome_proc 10 None (Some KeyboardInterrupt)]) = 1"
    using h2 script_exit_code [of True real_run "[chrome_proc 10 None (Some KeyboardInterrupt)]"]
    by blast
  have e: "snd (script True real_run [chrome_proc 10 (Some OSError) None]) = 2"
    using h3 n script_exit_code [of True real_run "[chrome_proc 10 (Some OSError) None]" _ OSError]
    by blast
  show ?thesis using a b c d e by blast
qed

theorem psutil_missing_exit_counterexample:
  "script False real_run [] = ([Print_psutil_missing], 1) \<and>
   snd (script False real_run []) \<noteq> 2"
  by (simp add: script_def)

text \<open>
  C9. The server test is the same as the test that \<open>node\<close> occurs in the lowered name and
  \<open>playwright\<close> occurs in the command line: \<open>playwright\<close> occurs in
  \<open>mcp-server-playwright\<close>, so the first marker of the disjunction adds nothing.
\<close>

theorem nodejs_server_simpler:
  "is_nodejs_server n c = (contains ''node'' (lower n) \<and> contains ''playwright'' c) \<and>
   (contains ''mcp-server-playwright'' c \<or> contains ''playwright'' c) = contains ''playwright'' c"
proof -
  have "contains ''playwright'' c" if "contains ''mcp-server-playwright'' c"
    using contains_trans [OF playwright_in_marker that] .
  then show ?thesis by (auto simp: is_nodejs_server_def)
qed

text \<open>
  C10, at a record where the code departs from it. An argument vector that is \<open>None\<close> or
  empty is taken as the empty command line, and when the name of the record could be read
  the record is classified as ignored and the sweep does nothing for it
  (\<open>cmdline_unavailable_name_readable\<close>). When the name of such a record could not be read
  either, the sweep fails on it: \<open>proc_name.lower()\<close> raises \<open>AttributeError\<close>, in a dry run
  after the target before it was counted, and in a real run before the rest of the
  snapshot is looked at.
\<close>

theorem unavailable_cmdline_unreadable_name_fails:
  "cmdline (info (unreadable_proc 4)) = None \<and>
   cmdline_text (info (unreadable_proc 4)) = [] \<and>
   kill_browser_processes_only dry [chrome_proc 10 None None, unreadable_proc 4] =
     ([], Inl AttributeError) \<and>
   kill_browser_processes_only real_run [unreadable_proc 4, node_server 11] =
     ([], Inl AttributeError)"
  by (simp add: eval_defs)

end
